theory Spec2Isabelle
  imports Complex_Main
begin

section \<open>Python values and exceptions\<close>

text \<open>
  A Python \<open>str\<close> is modelled as the list of its code points, each a \<open>char\<close>
  (code points below 256).  \<open>None\<close> is the \<open>None\<close> of \<open>option\<close>.  An exception
  that leaves a function is the \<open>Inl\<close> of a sum; only the exception classes that the
  scraper itself can meet are listed.
\<close>

datatype py_error =
    AttributeError
  | IndexError
  | TypeError
  | OverflowError
  | ValueError
  | FileNotFoundError
  | TransportError string

section \<open>String methods used by the scraper\<close>

text \<open>\<open>str.isspace\<close> on one code point below 256: the characters \<open>str.strip()\<close> removes.\<close>

definition isspace :: "char \<Rightarrow> bool" where
  "isspace c =
     (let n = (of_char c :: nat)
      in (9 \<le> n \<and> n \<le> 13) \<or> (28 \<le> n \<and> n \<le> 32) \<or> n = 133 \<or> n = 160)"

text \<open>\<open>s.strip()\<close>: drop the leading and the trailing whitespace.\<close>

definition strip :: "string \<Rightarrow> string" where
  "strip s = rev (dropWhile isspace (rev (dropWhile isspace s)))"

text \<open>
  \<open>s.replace(old, new)\<close>: the occurrences of \<open>old\<close> are replaced from the left and
  do not overlap; an empty \<open>old\<close> matches before every character and at the end.
\<close>

function str_replace :: "string \<Rightarrow> string \<Rightarrow> string \<Rightarrow> string" where
  "str_replace old new s =
     (if old = [] then new @ concat (map (\<lambda>c. c # new) s)
      else if s = [] then []
      else if take (length old) s = old
        then new @ str_replace old new (drop (length old) s)
      else hd s # str_replace old new (tl s))"
  by pat_completeness auto
termination
  by (relation "measure (\<lambda>(old, new, s). length s)") auto

declare str_replace.simps [simp del]

subsection \<open>\<open>clean_title\<close>\<close>

definition clean_title :: "string \<Rightarrow> string" where
  "clean_title title0 =
     (let title1 = str_replace [CHR 0x0A] [] title0;
          title2 = str_replace [CHR 0x09] [] title1;
          title3 = str_replace ''/'' [] title2;
          title4 = strip title3
      in title4)"

text \<open>\<open>sep.join(parts)\<close>.\<close>

fun join :: "string \<Rightarrow> string list \<Rightarrow> string" where
  "join sep [] = []"
| "join sep [x] = x"
| "join sep (x # y # ys) = x @ sep @ join sep (y # ys)"

text \<open>The decimal digits: the only code points below 256 that the pattern \<open>\d\<close> matches.\<close>

definition isdigit :: "char \<Rightarrow> bool" where
  "isdigit c = (let n = (of_char c :: nat) in 48 \<le> n \<and> n \<le> 57)"

definition digit_value :: "char \<Rightarrow> int" where
  "digit_value c = int (of_char c) - 48"

text \<open>The integer that a string of decimal digits denotes.\<close>

definition int_of_digits :: "string \<Rightarrow> int" where
  "int_of_digits s = foldl (\<lambda>acc c. 10 * acc + digit_value c) 0 s"

text \<open>
  \<open>sys.get_int_max_str_digits()\<close>: the interpreter's limit on the number of digits
  of a decimal string that \<open>int\<close> converts, at its default.
\<close>

definition int_max_str_digits :: nat where
  "int_max_str_digits = 4300"

text \<open>
  \<open>int(s)\<close> for a string of decimal digits: \<open>ValueError\<close> when the string has more
  digits than the limit (leading zeros count), else the integer it denotes.
\<close>

definition py_int :: "string \<Rightarrow> py_error + int" where
  "py_int s = (if int_max_str_digits < length s then Inl ValueError else Inr (int_of_digits s))"

text \<open>\<open>str(n)\<close> for an integer, as the f-string of \<open>build_url\<close> formats it.\<close>

fun digits_of_nat :: "nat \<Rightarrow> string" where
  "digits_of_nat n =
     (if n < 10 then [char_of (48 + n)]
      else digits_of_nat (n div 10) @ [char_of (48 + n mod 10)])"

declare digits_of_nat.simps [simp del]

definition str_of_int :: "int \<Rightarrow> string" where
  "str_of_int i = (if i < 0 then ''-'' @ digits_of_nat (nat (- i)) else digits_of_nat (nat i))"

section \<open>Result Counter: \<open>extract_number\<close> and \<open>num_of_pages\<close>\<close>

text \<open>
  \<open>re.findall(r'\d+', s)\<close>: scanning from the left, every match is a greedy run of
  digits, and the scan resumes after the run.
\<close>

function findall_digits :: "string \<Rightarrow> string list" where
  "findall_digits [] = []"
| "findall_digits (c # cs) =
     (if isdigit c
      then (c # takeWhile isdigit cs) # findall_digits (dropWhile isdigit cs)
      else findall_digits cs)"
  by pat_completeness auto
termination
  by (relation "measure length") (auto simp: length_dropWhile_le less_Suc_eq_le)

text \<open>An exception of \<open>int\<close> is not caught: it leaves \<open>extract_number\<close>.\<close>

definition extract_number :: "string \<Rightarrow> py_error + int option" where
  "extract_number str =
     (let number = findall_digits str
      in if number = [] then Inr None
         else (case py_int (join [] number) of
                 Inl e \<Rightarrow> Inl e
               | Inr n \<Rightarrow> Inr (Some n)))"

text \<open>
  The spec's words for the same list, to compare with the scan above: the maximal runs
  of digits of a string, in order of occurrence.  \<open>blocks P s\<close> cuts \<open>s\<close> at every
  character that fails \<open>P\<close> and lists the pieces between them, the empty ones too; the
  maximal runs are the pieces that are not empty.
\<close>

fun blocks :: "(char \<Rightarrow> bool) \<Rightarrow> string \<Rightarrow> string list" where
  "blocks P [] = [[]]"
| "blocks P (c # cs) =
     (if P c then (c # hd (blocks P cs)) # tl (blocks P cs) else [] # blocks P cs)"

definition maximal_digit_runs :: "string \<Rightarrow> string list" where
  "maximal_digit_runs s = filter (\<lambda>b. b \<noteq> []) (blocks isdigit s)"

text \<open>
  A finite Python \<open>float\<close> is an IEEE double, kept here as the pair \<open>(m, e)\<close> of an
  integer mantissa and an exponent: the number \<open>m * 2 ^ e\<close>.
\<close>

type_synonym pyfloat = "int \<times> int"

text \<open>Nearest integer to \<open>a / b\<close> for \<open>0 \<le> a\<close> and \<open>0 < b\<close>, ties to the even one.\<close>

definition round_half_even :: "int \<Rightarrow> int \<Rightarrow> int" where
  "round_half_even a b =
     (let q = a div b; r = a mod b
      in if 2 * r < b then q
         else if b < 2 * r then q + 1
         else if even q then q else q + 1)"

text \<open>The number of binary digits of a positive integer (0 for the others).\<close>

function bit_length :: "int \<Rightarrow> nat" where
  "bit_length n = (if n \<le> 0 then 0 else Suc (bit_length (n div 2)))"
  by pat_completeness auto
termination
  by (relation "measure nat") auto

declare bit_length.simps [simp del]

text \<open>
  \<open>num / 100\<close> on an \<open>int\<close>: true division, whose result is the double nearest to the
  exact quotient (round half to even on a mantissa of 53 bits), or \<open>OverflowError\<close> when
  that is beyond the range of a double.  With \<open>p\<close> the integer part of the binary
  logarithm of \<open>|num| / 100\<close> (read off the quotient scaled by \<open>2 ^ 7\<close>, which is at
  least 1), the mantissa is the quotient scaled by \<open>2 ^ (52 - p)\<close> and rounded.
\<close>

definition truediv_100 :: "int \<Rightarrow> py_error + pyfloat" where
  "truediv_100 num =
     (if num = 0 then Inr (0, 0)
      else
        let a = \<bar>num\<bar>;
            p = int (bit_length ((a * 2 ^ 7) div 100)) - 1 - 7;
            e = p - 52;
            m = (if 0 \<le> e then round_half_even a (100 * 2 ^ nat e)
                 else round_half_even (a * 2 ^ nat (- e)) 100)
        in if 972 \<le> e \<or> (e = 971 \<and> m = 2 ^ 53) then Inl OverflowError
           else Inr (sgn num * m, e))"

text \<open>\<open>math.ceil(x)\<close> on a finite float: the least integer not below \<open>m * 2 ^ e\<close>.\<close>

definition math_ceil :: "pyfloat \<Rightarrow> int" where
  "math_ceil x =
     (case x of (m, e) \<Rightarrow>
        if 0 \<le> e then m * 2 ^ nat e else - ((- m) div 2 ^ nat (- e)))"

definition num_of_pages :: "int option \<Rightarrow> py_error + int option" where
  "num_of_pages num =
     (case num of
        None \<Rightarrow> Inr None
      | Some n \<Rightarrow>
          (case truediv_100 n of
             Inl err \<Rightarrow> Inl err
           | Inr x \<Rightarrow> Inr (Some (math_ceil x))))"

section \<open>Query Builder: \<open>build_url\<close>\<close>

text \<open>
  The unsupported branch prints a message and returns \<open>None\<close>.  \<open>DDC\<close> and \<open>num\<close> are
  integers, formatted by the f-string.
\<close>

definition build_url :: "string \<Rightarrow> int \<Rightarrow> int \<Rightarrow> string option" where
  "build_url lang num DDC =
     (case
        (if lang = ''Hindi'' then Some ''hin''
         else if lang = ''Bengali'' then Some ''ben''
         else if lang = ''Tamil'' then Some ''tam''
         else if lang = ''Marathi'' then Some ''mar''
         else if lang = ''Urdu'' then Some ''urd''
         else if lang = ''Kannada'' then Some ''kan''
         else if lang = ''English'' then Some ''eng''
         else None)
      of
        None \<Rightarrow> None
      | Some lan \<Rightarrow>
          Some (''https://nationallibraryopac.nvli.in/cgi-bin/koha/opac-search.pl?idx=callnum&q=''
                @ str_of_int DDC
                @ ''&limit=mc-itype%2Cphr%3ABKS&limit=ln%2Crtrn%3A'' @ lan
                @ ''&limit=fic%3A0&offset='' @ str_of_int num
                @ ''&sort_by=call_number_dsc&count=100''))"

section \<open>The parsed document\<close>

text \<open>
  What \<open>BeautifulSoup(resp.content, 'html.parser')\<close> hands to the scraper: a tree of
  tags, text nodes and comments.  A tag carries its name, the list of its classes (the
  parser splits the \<open>class\<close> attribute at whitespace), its other attributes and its
  children.  The document itself is a tag whose children are the top-level nodes.
\<close>

datatype node =
    NavigableString string
  | Comment string
  | Tag string "string list" "(string \<times> string) list" "node list"

text \<open>All nodes below a node, in document order.\<close>

fun descendants :: "node \<Rightarrow> node list" where
  "descendants (Tag nm cls attrs children) = concat (map (\<lambda>c. c # descendants c) children)"
| "descendants (NavigableString s) = []"
| "descendants (Comment s) = []"

text \<open>
  The filter of \<open>find(name, class_=c)\<close>: a tag of that name; with a class given, one of
  the tag's classes is \<open>c\<close>, or the whole class attribute, joined by blanks, is \<open>c\<close>.
\<close>

definition matches :: "string \<Rightarrow> string option \<Rightarrow> node \<Rightarrow> bool" where
  "matches nm class_opt x =
     (case x of
        Tag n cls attrs children \<Rightarrow>
          n = nm \<and>
          (case class_opt of
             None \<Rightarrow> True
           | Some c \<Rightarrow> cls \<noteq> [] \<and> (c \<in> set cls \<or> join '' '' cls = c))
      | _ \<Rightarrow> False)"

text \<open>\<open>soup.find(name, class_=c)\<close>: the first matching descendant, or \<open>None\<close>.\<close>

definition soup_find :: "string \<Rightarrow> string option \<Rightarrow> node \<Rightarrow> node option" where
  "soup_find nm class_opt soup = List.find (matches nm class_opt) (descendants soup)"

text \<open>\<open>soup.find_all(name)\<close>.\<close>

definition find_all :: "string \<Rightarrow> node \<Rightarrow> node list" where
  "find_all nm soup = filter (matches nm None) (descendants soup)"

text \<open>The text nodes below (or at) a node, in document order; comments are no text.\<close>

fun strings :: "node \<Rightarrow> string list" where
  "strings (NavigableString s) = [s]"
| "strings (Comment s) = []"
| "strings (Tag nm cls attrs children) = concat (map strings children)"

text \<open>\<open>tag.text\<close>.\<close>

definition text_of :: "node \<Rightarrow> string" where
  "text_of t = concat (strings t)"

text \<open>\<open>tag.get_text(strip=True)\<close>: every text node stripped, the empty ones left out.\<close>

definition get_text_strip :: "node \<Rightarrow> string" where
  "get_text_strip t = concat (filter (\<lambda>s. s \<noteq> []) (map strip (strings t)))"

text \<open>
  \<open>tag.find(string=True, recursive=False)\<close>: the first child that is a string node
  (a comment is one), or \<open>None\<close>.
\<close>

fun find_string_nonrecursive :: "node \<Rightarrow> string option" where
  "find_string_nonrecursive (Tag nm cls attrs children) =
     (case List.find (\<lambda>c. case c of Tag _ _ _ _ \<Rightarrow> False | _ \<Rightarrow> True) children of
        Some (NavigableString s) \<Rightarrow> Some s
      | Some (Comment s) \<Rightarrow> Some s
      | _ \<Rightarrow> None)"
| "find_string_nonrecursive _ = None"

text \<open>\<open>tag.get(key)\<close>: the attribute, or \<open>None\<close>.\<close>

fun tag_get :: "string \<Rightarrow> node \<Rightarrow> string option" where
  "tag_get key (Tag nm cls attrs children) = map_of attrs key"
| "tag_get key _ = None"

section \<open>Field Extractors\<close>

text \<open>
  An attribute or method reached through a value that may be \<open>None\<close> raises
  \<open>AttributeError\<close> on \<open>None\<close>.
\<close>

definition deref :: "'a option \<Rightarrow> py_error + 'a" where
  "deref x = (case x of None \<Rightarrow> Inl AttributeError | Some v \<Rightarrow> Inr v)"

text \<open>
  \<open>try: ... return v  except (E1, E2): return None\<close>: the listed exceptions become
  \<open>None\<close>, every other one leaves the function.
\<close>

definition try_except :: "py_error list \<Rightarrow> py_error + 'a option \<Rightarrow> py_error + 'a option" where
  "try_except handled body =
     (case body of
        Inl e \<Rightarrow> if e \<in> set handled then Inr None else Inl e
      | Inr v \<Rightarrow> Inr v)"

text \<open>\<open>s.split(":", 1)\<close>: cut at the first colon, if there is one.\<close>

definition split_colon_1 :: "string \<Rightarrow> string list" where
  "split_colon_1 s =
     (if CHR '':'' \<in> set s
      then [takeWhile (\<lambda>c. c \<noteq> CHR '':'') s, tl (dropWhile (\<lambda>c. c \<noteq> CHR '':'') s)]
      else [s])"

text \<open>\<open>xs[i]\<close> for an index that is not negative.\<close>

definition item :: "'a list \<Rightarrow> nat \<Rightarrow> py_error + 'a" where
  "item xs i = (if i < length xs then Inr (xs ! i) else Inl IndexError)"

definition extract_text :: "node \<Rightarrow> string \<Rightarrow> py_error + string option" where
  "extract_text soup selector =
     try_except [AttributeError]
       (case deref (soup_find selector None soup) of
          Inl e \<Rightarrow> Inl e
        | Inr t \<Rightarrow> Inr (Some (text_of t)))"

definition extract_text_class :: "node \<Rightarrow> string \<Rightarrow> string \<Rightarrow> py_error + string option" where
  "extract_text_class soup selector type =
     try_except [AttributeError]
       (case deref (soup_find selector (Some type) soup) of
          Inl e \<Rightarrow> Inl e
        | Inr t \<Rightarrow> Inr (Some (text_of t)))"

text \<open>\<open>clean_title\<close> is called on what \<open>find\<close> returned: on \<open>None\<close>, \<open>title.replace\<close> raises.\<close>

definition extract_title :: "node \<Rightarrow> py_error + string option" where
  "extract_title soup =
     try_except [AttributeError]
       (case deref (soup_find ''a'' (Some ''title'') soup) of
          Inl e \<Rightarrow> Inl e
        | Inr temp \<Rightarrow>
            (case deref (find_string_nonrecursive temp) of
               Inl e \<Rightarrow> Inl e
             | Inr s \<Rightarrow> Inr (Some (clean_title s))))"

definition extract_book_type :: "node \<Rightarrow> py_error + string option" where
  "extract_book_type soup =
     try_except [AttributeError, IndexError]
       (case deref (soup_find ''span'' (Some ''results_material_type'') soup) of
          Inl e \<Rightarrow> Inl e
        | Inr temp \<Rightarrow> Inr (Some (str_replace ''Material type:'' [] (get_text_strip temp))))"

definition extract_book_language :: "node \<Rightarrow> py_error + string option" where
  "extract_book_language soup =
     try_except [AttributeError, IndexError]
       (case deref (soup_find ''span'' (Some ''results_summary languages'') soup) of
          Inl e \<Rightarrow> Inl e
        | Inr temp \<Rightarrow>
            (case item (split_colon_1 (get_text_strip temp)) 1 of
               Inl e \<Rightarrow> Inl e
             | Inr part \<Rightarrow> Inr (Some (strip part))))"

definition extract_book_form :: "node \<Rightarrow> py_error + string option" where
  "extract_book_form soup =
     try_except [AttributeError, IndexError]
       (case deref (soup_find ''span'' (Some ''results_contents_literary'') soup) of
          Inl e \<Rightarrow> Inl e
        | Inr temp \<Rightarrow>
            if CHR '':'' \<in> set (get_text_strip temp)
            then (case item (split_colon_1 (get_text_strip temp)) 1 of
                    Inl e \<Rightarrow> Inl e
                  | Inr part \<Rightarrow> Inr (Some (strip part)))
            else Inr (Some (strip (get_text_strip temp))))"

definition extract_call_number :: "node \<Rightarrow> py_error + string option" where
  "extract_call_number book =
     try_except [AttributeError]
       (case deref (soup_find ''span'' (Some ''CallNumber'') book) of
          Inl e \<Rightarrow> Inl e
        | Inr t \<Rightarrow> Inr (Some (strip (text_of t))))"

definition extract_link :: "node \<Rightarrow> py_error + string option" where
  "extract_link book =
     try_except [AttributeError]
       (case deref (soup_find ''a'' None book) of
          Inl e \<Rightarrow> Inl e
        | Inr t \<Rightarrow> Inr (tag_get ''href'' t))"

section \<open>Record Mapper: \<open>parse_book\<close>\<close>

text \<open>One row of the table \<open>books\<close>: eight columns, each a text or \<open>NULL\<close>.\<close>

record book =
  title :: "string option"
  call_number :: "string option"
  author :: "string option"
  booktype :: "string option"
  form :: "string option"
  language :: "string option"
  year :: "string option"
  link :: "string option"

text \<open>
  \<open>parse_book\<close> is a generator that yields one tuple: the result is the list of what it
  yields.  An exception of an extractor would leave \<open>parse_book\<close>.
\<close>

definition parse_book :: "node \<Rightarrow> py_error + book list" where
  "parse_book bk =
     (case extract_title bk of Inl e \<Rightarrow> Inl e | Inr v1 \<Rightarrow>
      case extract_call_number bk of Inl e \<Rightarrow> Inl e | Inr v2 \<Rightarrow>
      case extract_text bk ''p'' of Inl e \<Rightarrow> Inl e | Inr v3 \<Rightarrow>
      case extract_book_type bk of Inl e \<Rightarrow> Inl e | Inr v4 \<Rightarrow>
      case extract_book_form bk of Inl e \<Rightarrow> Inl e | Inr v5 \<Rightarrow>
      case extract_book_language bk of Inl e \<Rightarrow> Inl e | Inr v6 \<Rightarrow>
      case extract_text_class bk ''span'' ''publisher_date'' of Inl e \<Rightarrow> Inl e | Inr v7 \<Rightarrow>
      case extract_link bk of Inl e \<Rightarrow> Inl e | Inr v8 \<Rightarrow>
        Inr [\<lparr>title = v1, call_number = v2, author = v3, booktype = v4,
               form = v5, language = v6, year = v7, link = v8\<rparr>])"

section \<open>Persistence Sink: \<open>save_to_database\<close>\<close>

text \<open>
  An SQLite table of books: the \<open>UNIQUE\<close> (or \<open>PRIMARY KEY\<close>) constraints its
  \<open>CREATE TABLE\<close> statement declared, each a list of columns, and its rows in the order
  of insertion.
\<close>

datatype column = Title | Call_number | Author | Booktype | Form | Language | Year | Link

fun field :: "column \<Rightarrow> book \<Rightarrow> string option" where
  "field Title b = title b"
| "field Call_number b = call_number b"
| "field Author b = author b"
| "field Booktype b = booktype b"
| "field Form b = form b"
| "field Language b = language b"
| "field Year b = year b"
| "field Link b = link b"

record table =
  unique_keys :: "column list list"
  rows :: "book list"

text \<open>
  \<open>CREATE TABLE books (title text, call_number text, author text, booktype text,
  form text, language text, year text, link text)\<close>: eight columns and no constraint.
\<close>

definition create_table_books :: table where
  "create_table_books = \<lparr>unique_keys = [], rows = []\<rparr>"

text \<open>
  A new row violates a uniqueness constraint when a stored row has the same values in
  all the columns of the key, none of them \<open>NULL\<close>.
\<close>

definition violates :: "table \<Rightarrow> book \<Rightarrow> bool" where
  "violates t b =
     list_ex (\<lambda>key.
        list_ex (\<lambda>r.
          list_all (\<lambda>c. field c b \<noteq> None \<and> field c r = field c b) key) (rows t))
       (unique_keys t)"

text \<open>\<open>INSERT OR IGNORE\<close>: a row that violates a constraint of the table is skipped.\<close>

definition insert_or_ignore :: "table \<Rightarrow> book \<Rightarrow> table" where
  "insert_or_ignore t b = (if violates t b then t else t\<lparr>rows := rows t @ [b]\<rparr>)"

text \<open>
  The database files, by path; each holds the table \<open>books\<close> once it has been created.
  \<open>CREATE TABLE IF NOT EXISTS\<close> keeps a table that is there; \<open>executemany\<close> inserts
  the rows one after the other.
\<close>

type_synonym databases = "string \<rightharpoonup> table"

definition save_to_database :: "databases \<Rightarrow> string \<Rightarrow> book list \<Rightarrow> databases" where
  "save_to_database dbs database_path page_results =
     (let t = (case dbs database_path of None \<Rightarrow> create_table_books | Some t \<Rightarrow> t)
      in dbs(database_path \<mapsto> foldl insert_or_ignore t page_results))"

section \<open>The world of a run\<close>

text \<open>
  A CSV file with the one column \<open>DDC\<close>, as \<open>to_csv\<close> leaves it: a column of integer
  numerals (in decimal, as \<open>to_csv\<close> writes integers and strings of digits), or a column
  written from \<open>float64\<close> values, whose cells are not modelled.
\<close>

datatype csv = Int_literals "int list" | Float_cells

text \<open>
  The CSV files, the database files, and the URLs of the requests sent so far, oldest
  first.  The pacing delays, the console output and the timing change none of these and
  are left out.
\<close>

record world =
  csv_files :: "string \<rightharpoonup> csv"
  dbs :: databases
  requests :: "string list"

text \<open>
  The remote catalog: the outcome of the \<open>k\<close>-th request of the run, for a URL, is a
  transport failure or the parsed document of the response.
\<close>

type_synonym transport = "nat \<Rightarrow> string \<Rightarrow> py_error + node"

text \<open>
  \<open>httpx.get(url, ...)\<close> followed by the parsing of the content.  \<open>httpx\<close> rejects a URL
  that is not a string with \<open>TypeError\<close>, before anything is sent.
\<close>

definition httpx_get :: "transport \<Rightarrow> string option \<Rightarrow> world \<Rightarrow> (py_error + node) \<times> world" where
  "httpx_get net url w =
     (case url of
        None \<Rightarrow> (Inl TypeError, w)
      | Some u \<Rightarrow> (net (length (requests w)) u, w\<lparr>requests := requests w @ [u]\<rparr>))"

section \<open>Result Counter: \<open>num_of_results\<close>\<close>

definition num_of_results :: "transport \<Rightarrow> string option \<Rightarrow> world \<Rightarrow> (py_error + int option) \<times> world" where
  "num_of_results net url w =
     (case httpx_get net url w of
        (Inl e, w1) \<Rightarrow> (Inl e, w1)
      | (Inr soup, w1) \<Rightarrow>
          (case deref (soup_find ''h1'' None soup) of
             Inl e \<Rightarrow> (Inl e, w1)
           | Inr h1 \<Rightarrow> (extract_number (strip (text_of h1)), w1)))"

section \<open>Page Fetcher/Parser: \<open>parse_page\<close>\<close>

text \<open>
  The loop over the rows of a page.  The generator of \<open>parse_book\<close> runs when
  \<open>executemany\<close> asks for its row.
\<close>

fun save_books :: "string \<Rightarrow> node list \<Rightarrow> world \<Rightarrow> (py_error + unit) \<times> world" where
  "save_books path [] w = (Inr (), w)"
| "save_books path (bk # books) w =
     (case parse_book bk of
        Inl e \<Rightarrow> (Inl e, w)
      | Inr results \<Rightarrow>
          save_books path books (w\<lparr>dbs := save_to_database (dbs w) path results\<rparr>))"

text \<open>
  The \<open>try\<close> block spans \<open>table.find_all\<close> and the loop: an \<open>AttributeError\<close> from
  either ends the page with a message.
\<close>

definition parse_page :: "transport \<Rightarrow> string option \<Rightarrow> string \<Rightarrow> world \<Rightarrow> (py_error + unit) \<times> world" where
  "parse_page net url path w =
     (case httpx_get net url w of
        (Inl e, w1) \<Rightarrow> (Inl e, w1)
      | (Inr soup, w1) \<Rightarrow>
          (case (case deref (soup_find ''div'' (Some ''searchresults'') soup) of
                   Inl e \<Rightarrow> (Inl e, w1)
                 | Inr tbl \<Rightarrow>
                     (let books = find_all ''tr'' tbl
                      in if length books = 0 then (Inr (), w1)
                         else save_books path books w1))
           of
             (Inl e, w2) \<Rightarrow> if e = AttributeError then (Inr (), w2) else (Inl e, w2)
           | (Inr u, w2) \<Rightarrow> (Inr u, w2)))"

section \<open>Pagination Driver: \<open>parse_code\<close>\<close>

text \<open>\<open>range(0, n)\<close>.\<close>

definition range0 :: "int \<Rightarrow> int list" where
  "range0 n = [0..n - 1]"

text \<open>The loop \<open>for i in range(0, num_pages)\<close>.\<close>

fun scrape_pages :: "transport \<Rightarrow> string \<Rightarrow> string \<Rightarrow> int \<Rightarrow> int list \<Rightarrow> world \<Rightarrow> (py_error + unit) \<times> world" where
  "scrape_pages net lang database_path code [] w = (Inr (), w)"
| "scrape_pages net lang database_path code (i # is) w =
     (let url = build_url lang (i * 100) code
      in case parse_page net url database_path w of
           (Inl e, w1) \<Rightarrow> (Inl e, w1)
         | (Inr u, w1) \<Rightarrow> scrape_pages net lang database_path code is w1)"

text \<open>The URL of a language that is not supported is \<open>None\<close>, and it is passed on as it is.\<close>

definition parse_code :: "transport \<Rightarrow> string \<Rightarrow> string \<Rightarrow> int \<Rightarrow> world \<Rightarrow> (py_error + unit) \<times> world" where
  "parse_code net lang path code w =
     (let database_path = path @ ''/1_scraped_data/parsed_data_'' @ lang @ ''.db'';
          url = build_url lang 0 code
      in case num_of_results net url w of
           (Inl e, w1) \<Rightarrow> (Inl e, w1)
         | (Inr num_res, w1) \<Rightarrow>
             (case num_of_pages num_res of
                Inl e \<Rightarrow> (Inl e, w1)
              | Inr num_pages \<Rightarrow>
                  (case num_res of
                     None \<Rightarrow> (Inr (), w1)
                   | Some n \<Rightarrow>
                       (case num_pages of
                          None \<Rightarrow> (Inl TypeError, w1)
                        | Some pages \<Rightarrow>
                            scrape_pages net lang database_path code (range0 pages) w1))))"

section \<open>Progress Tracker\<close>

text \<open>
  A subject code as the program holds it: a Python \<open>int\<close>, or a Python \<open>str\<close> whose
  text is the decimal numeral of the integer (what \<open>read_csv\<close> hands out for a column
  it cannot type as integers).
\<close>

datatype code = IntCode int | StrCode int

text \<open>
  The integer whose numeral is the text of a code.  An f-string and \<open>to_csv\<close> format
  both kinds of code to the same text, the numeral.
\<close>

fun code_number :: "code \<Rightarrow> int" where
  "code_number (IntCode i) = i"
| "code_number (StrCode i) = i"

text \<open>The ranges of the two 64-bit integer types of a column.\<close>

definition in_int64 :: "int \<Rightarrow> bool" where
  "in_int64 i = (- (2 ^ 63) \<le> i \<and> i < 2 ^ 63)"

definition in_uint64 :: "int \<Rightarrow> bool" where
  "in_uint64 i = (0 \<le> i \<and> i < 2 ^ 64)"

text \<open>
  A data frame with the one column \<open>DDC\<close>: its values, or a frame that holds
  \<open>float64\<close> values (not modelled).
\<close>

datatype frame = Frame "code list" | Float_frame

datatype dtype = Int64 | UInt64 | Object

fun int_code_in :: "(int \<Rightarrow> bool) \<Rightarrow> code \<Rightarrow> bool" where
  "int_code_in P (IntCode i) = P i"
| "int_code_in P (StrCode i) = False"

text \<open>
  The type of the column of a frame that comes straight from \<open>pd.read_csv\<close> or from
  \<open>pd.DataFrame\<close>: \<open>int64\<close> when every value is an integer of that range, else
  \<open>uint64\<close> when every value is an integer of that range, else \<open>object\<close>; a column
  with no row is \<open>object\<close>.
\<close>

definition inferred_dtype :: "code list \<Rightarrow> dtype" where
  "inferred_dtype values =
     (if values = [] then Object
      else if list_all (int_code_in in_int64) values then Int64
      else if list_all (int_code_in in_uint64) values then UInt64
      else Object)"

text \<open>\<open>pd.DataFrame({"DDC": [code]})\<close>.\<close>

definition data_frame :: "code \<Rightarrow> frame" where
  "data_frame code = Frame [code]"

text \<open>
  The values \<open>pd.read_csv\<close> gives a column of integer numerals: integers when all of
  them fit \<open>int64\<close> or all of them fit \<open>uint64\<close>; otherwise no numeric type holds the
  column and every cell stays the string that was read.
\<close>

definition read_values :: "int list \<Rightarrow> code list" where
  "read_values cells =
     (if list_all in_int64 cells \<or> list_all in_uint64 cells then map IntCode cells
      else map StrCode cells)"

text \<open>\<open>pd.read_csv(p)\<close>.\<close>

definition read_csv :: "world \<Rightarrow> string \<Rightarrow> py_error + frame" where
  "read_csv w p =
     (case csv_files w p of
        None \<Rightarrow> Inl FileNotFoundError
      | Some (Int_literals cells) \<Rightarrow> Inr (Frame (read_values cells))
      | Some Float_cells \<Rightarrow> Inr Float_frame)"

text \<open>
  \<open>df['DDC'].tolist()\<close>.  The result is \<open>None\<close> for a column of floats: the list
  exists, but its values are not modelled.
\<close>

fun tolist :: "frame \<Rightarrow> code list option" where
  "tolist (Frame values) = Some values"
| "tolist Float_frame = None"

text \<open>
  \<open>pd.concat([a, b], ignore_index=True)\<close> for two frames that come straight from
  \<open>pd.read_csv\<close> or \<open>pd.DataFrame\<close>: the values of \<open>a\<close> followed by those of \<open>b\<close>,
  except that an \<open>int64\<close> column joined with a \<open>uint64\<close> column becomes \<open>float64\<close>.
\<close>

fun pd_concat :: "frame \<Rightarrow> frame \<Rightarrow> frame" where
  "pd_concat (Frame xs) (Frame ys) =
     (if (inferred_dtype xs = Int64 \<and> inferred_dtype ys = UInt64)
         \<or> (inferred_dtype xs = UInt64 \<and> inferred_dtype ys = Int64)
      then Float_frame
      else Frame (xs @ ys))"
| "pd_concat Float_frame b = Float_frame"
| "pd_concat a Float_frame = Float_frame"

text \<open>\<open>df.to_csv(p, index=False)\<close>.\<close>

fun written :: "frame \<Rightarrow> csv" where
  "written (Frame values) = Int_literals (map code_number values)"
| "written Float_frame = Float_cells"

definition to_csv :: "string \<Rightarrow> frame \<Rightarrow> world \<Rightarrow> world" where
  "to_csv p df w = w\<lparr>csv_files := (csv_files w)(p \<mapsto> written df)\<rparr>"

definition ledger_path :: "string \<Rightarrow> string \<Rightarrow> string" where
  "ledger_path path lang =
     path @ ''/0_subject_list/scraper_progess_tracker/ddc_codes_scraped_'' @ lang @ ''.csv''"

definition save_code_scraped :: "string \<Rightarrow> string \<Rightarrow> code \<Rightarrow> world \<Rightarrow> (py_error + unit) \<times> world" where
  "save_code_scraped lang path code w =
     (let file_path = ledger_path path lang;
          df = data_frame code
      in case (case read_csv w file_path of
                 Inr existing_df \<Rightarrow> Inr (pd_concat existing_df df)
               | Inl e \<Rightarrow> if e = FileNotFoundError then Inr df else Inl e)
         of
           Inl e \<Rightarrow> (Inl e, w)
         | Inr updated_df \<Rightarrow> (Inr (), to_csv file_path updated_df w))"

text \<open>
  The result is \<open>None\<close> when the universe or the ledger is a column of floats, whose
  values are not modelled.
\<close>

definition progress_update_codes :: "string \<Rightarrow> string \<Rightarrow> world \<Rightarrow> (py_error + code list) option" where
  "progress_update_codes path lang w =
     (case read_csv w (path @ ''/0_subject_list/tech_ddc_codes_list.csv'') of
        Inl e \<Rightarrow> Some (Inl e)
      | Inr df_code \<Rightarrow>
          (case tolist df_code of
             None \<Rightarrow> None
           | Some list_of_codes \<Rightarrow>
               (case (case read_csv w (ledger_path path lang) of
                        Inr df \<Rightarrow> map_option Inr (tolist df)
                      | Inl e \<Rightarrow> if e = FileNotFoundError then Some (Inr []) else Some (Inl e))
                of
                  None \<Rightarrow> None
                | Some (Inl e) \<Rightarrow> Some (Inl e)
                | Some (Inr codes_scraped) \<Rightarrow>
                    Some (Inr (filter (\<lambda>code. code \<notin> set codes_scraped) list_of_codes)))))"

section \<open>Campaign Driver\<close>

text \<open>
  \<open>parse_code\<close> uses the code only inside f-strings, where a string of digits and the
  integer it denotes give the same text: it is handed the number of the code.
\<close>

fun parse_language :: "transport \<Rightarrow> string \<Rightarrow> string \<Rightarrow> code list \<Rightarrow> world \<Rightarrow> (py_error + unit) \<times> world" where
  "parse_language net lang path [] w = (Inr (), w)"
| "parse_language net lang path (code # codes) w =
     (case parse_code net lang path (code_number code) w of
        (Inl e, w1) \<Rightarrow> (Inl e, w1)
      | (Inr u, w1) \<Rightarrow>
          (case save_code_scraped lang path code w1 of
             (Inl e, w2) \<Rightarrow> (Inl e, w2)
           | (Inr u, w2) \<Rightarrow> parse_language net lang path codes w2))"

text \<open>The result is \<open>None\<close> when that of \<open>progress_update_codes\<close> is.\<close>

definition scrape_language :: "transport \<Rightarrow> string \<Rightarrow> string \<Rightarrow> world \<Rightarrow> ((py_error + unit) \<times> world) option" where
  "scrape_language net lang path w =
     (case progress_update_codes path lang w of
        None \<Rightarrow> None
      | Some (Inl e) \<Rightarrow> Some (Inl e, w)
      | Some (Inr list_of_codes) \<Rightarrow>
          Some (if length list_of_codes > 0 then parse_language net lang path list_of_codes w
                else (Inr (), w)))"

section \<open>Sample inputs\<close>

text \<open>A row of a result page with every field but the author's paragraph.\<close>

definition row_without_author :: node where
  "row_without_author =
     Tag ''tr'' [] []
       [Tag ''td'' [] []
          [Tag ''a'' [''title''] [(''href'', ''/cgi-bin/koha/opac-detail.pl?biblionumber=42'')]
             [NavigableString ''  Krishi vigyan /  ''],
           Tag ''span'' [''results_summary'', ''languages''] []
             [Tag ''span'' [''label''] [] [NavigableString ''Language: ''],
              NavigableString '' Hindi ''],
           Tag ''span'' [''results_material_type''] []
             [Tag ''span'' [''label''] [] [NavigableString ''Material type: ''],
              NavigableString '' Text''],
           Tag ''span'' [''results_contents_literary''] []
             [NavigableString '' Literary form: Not fiction ''],
           Tag ''span'' [''publisher_date''] [] [NavigableString ''1987''],
           Tag ''span'' [''CallNumber''] [] [NavigableString '' H 630 S 531 '']]]"

definition sample_book :: book where
  "sample_book =
     \<lparr>title = Some ''Krishi vigyan'', call_number = Some ''H 630 S 531'',
      author = Some ''Sharma, R.'', booktype = Some ''Text'', form = Some ''Not fiction'',
      language = Some ''Hindi'', year = Some ''1987'',
      link = Some ''/cgi-bin/koha/opac-detail.pl?biblionumber=42''\<rparr>"

text \<open>The identity of an observation, in the words of the source: (title, author, year).\<close>

definition same_identity :: "book \<Rightarrow> book \<Rightarrow> bool" where
  "same_identity a b = (title a = title b \<and> author a = author b \<and> year a = year b)"

text \<open>A page of the catalog: the heading with the count of results, and the rows.\<close>

definition catalog_page :: "string \<Rightarrow> node list \<Rightarrow> node" where
  "catalog_page heading trs =
     Tag ''[document]'' [] []
       [Tag ''html'' [] []
          [Tag ''body'' [] []
             [Tag ''h1'' [] [] [NavigableString heading],
              Tag ''div'' [''searchresults''] [] [Tag ''table'' [] [] trs]]]]"

definition sample_transport :: transport where
  "sample_transport k u = Inr (catalog_page ''Your search returned 150 results.'' [])"

definition no_results_transport :: transport where
  "no_results_transport k u = Inr (catalog_page ''No results found!'' [])"

definition empty_world :: world where
  "empty_world = \<lparr>csv_files = Map.empty, dbs = Map.empty, requests = []\<rparr>"

text \<open>A universe of four codes, two of them in the ledger of Hindi.\<close>

definition resume_world :: world where
  "resume_world =
     \<lparr>csv_files =
        [''../Data/0_subject_list/tech_ddc_codes_list.csv'' \<mapsto> Int_literals [600, 601, 602, 603],
         ledger_path ''../Data'' ''Hindi'' \<mapsto> Int_literals [600, 601]],
      dbs = Map.empty, requests = []\<rparr>"

text \<open>
  A ledger left by a campaign over the codes -1, 9223372036854775808 (that is \<open>2 ^ 63\<close>)
  and 600, under a universe that is now 600, 601.
\<close>

definition mixed_ledger_world :: world where
  "mixed_ledger_world =
     \<lparr>csv_files =
        [''../Data/0_subject_list/tech_ddc_codes_list.csv'' \<mapsto> Int_literals [600, 601],
         ledger_path ''../Data'' ''Hindi'' \<mapsto> Int_literals [- 1, 9223372036854775808, 600]],
      dbs = Map.empty, requests = []\<rparr>"

text \<open>A ledger with the one code 9223372036854775809, above the range of \<open>int64\<close>.\<close>

definition uint64_ledger_world :: world where
  "uint64_ledger_world =
     \<lparr>csv_files = [ledger_path ''../Data'' ''Hindi'' \<mapsto> Int_literals [9223372036854775809]],
      dbs = Map.empty, requests = []\<rparr>"

section \<open>Properties of the string methods\<close>

lemma str_replace_single: "str_replace [c] [] s = filter (\<lambda>x. x \<noteq> c) s"
proof (induction s)
  case Nil
  show ?case by (subst str_replace.simps) simp
next
  case (Cons a s)
  show ?case by (subst str_replace.simps) (simp add: Cons.IH)
qed

lemma set_strip: "set (strip s) \<subseteq> set s"
proof
  fix x assume "x \<in> set (strip s)"
  then have "x \<in> set (dropWhile isspace (rev (dropWhile isspace s)))"
    by (simp add: strip_def)
  then have "x \<in> set (rev (dropWhile isspace s))"
    by (rule set_dropWhileD)
  then have "x \<in> set (dropWhile isspace s)" by simp
  then show "x \<in> set s" by (rule set_dropWhileD)
qed

lemma dropWhile_fixed: "xs = [] \<or> \<not> P (hd xs) \<Longrightarrow> dropWhile P xs = xs"
  by (cases xs) auto

lemma strip_no_leading: "strip s \<noteq> [] \<Longrightarrow> \<not> isspace (hd (strip s))"
proof -
  assume ne: "strip s \<noteq> []"
  define a where "a = dropWhile isspace s"
  define b where "b = dropWhile isspace (rev a)"
  have sb: "strip s = rev b" by (simp add: strip_def a_def b_def)
  with ne have bne: "b \<noteq> []" by simp
  obtain pre where pre: "rev a = pre @ b"
    unfolding b_def by (metis takeWhile_dropWhile_id)
  then have a_eq: "a = rev b @ rev pre" by (metis rev_append rev_rev_ident)
  from bne have ane: "a \<noteq> []" using a_eq by simp
  have "hd (rev b) = hd a" using a_eq bne by simp
  moreover have "\<not> isspace (hd a)" using ane unfolding a_def by (rule hd_dropWhile)
  ultimately show ?thesis using sb by simp
qed

lemma strip_no_trailing: "strip s \<noteq> [] \<Longrightarrow> \<not> isspace (last (strip s))"
proof -
  assume ne: "strip s \<noteq> []"
  define b where "b = dropWhile isspace (rev (dropWhile isspace s))"
  have sb: "strip s = rev b" by (simp add: strip_def b_def)
  with ne have bne: "b \<noteq> []" by simp
  then have "\<not> isspace (hd b)" unfolding b_def by (rule hd_dropWhile)
  then show ?thesis using sb bne by (simp add: last_rev)
qed

lemma strip_fixed:
  assumes "s = [] \<or> (\<not> isspace (hd s) \<and> \<not> isspace (last s))"
  shows "strip s = s"
proof (cases "s = []")
  case True
  then show ?thesis by (simp add: strip_def)
next
  case False
  with assms have h: "\<not> isspace (hd s)" and l: "\<not> isspace (last s)" by auto
  have 1: "dropWhile isspace s = s" using h by (simp add: dropWhile_fixed)
  have "hd (rev s) = last s" using False by (simp add: hd_rev)
  then have 2: "dropWhile isspace (rev s) = rev s" using l by (simp add: dropWhile_fixed)
  show ?thesis by (simp add: strip_def 1 2)
qed

lemma strip_idem: "strip (strip s) = strip s"
  by (rule strip_fixed) (use strip_no_leading strip_no_trailing in blast)

lemma join_empty: "join [] xs = concat xs"
proof (induction xs)
  case Nil
  show ?case by simp
next
  case (Cons x xs)
  then show ?case by (cases xs) simp_all
qed

section \<open>Title cleaning\<close>

lemma clean_title_filter:
  "clean_title t = strip (filter (\<lambda>c. c \<noteq> CHR 0x0A \<and> c \<noteq> CHR 0x09 \<and> c \<noteq> CHR ''/'') t)"
  by (simp add: clean_title_def str_replace_single conj_ac)

text \<open>
  Claim C5.  \<open>clean_title\<close> removes every newline, every tab and every forward slash of
  its input and then trims the whitespace at both ends: the result is the trimmed string
  of the remaining characters, it holds none of the three characters, trimming it again
  changes nothing, and the input \<open>"  Foo\nBar\t/Baz  "\<close> gives exactly \<open>"FooBarBaz"\<close>.
\<close>

theorem clean_title_removes_and_trims:
  "clean_title t = strip (filter (\<lambda>c. c \<noteq> CHR 0x0A \<and> c \<noteq> CHR 0x09 \<and> c \<noteq> CHR ''/'') t)
   \<and> CHR 0x0A \<notin> set (clean_title t)
   \<and> CHR 0x09 \<notin> set (clean_title t)
   \<and> CHR ''/'' \<notin> set (clean_title t)
   \<and> strip (clean_title t) = clean_title t
   \<and> clean_title (''  Foo\<newline>Bar'' @ [CHR 0x09] @ ''/Baz  '') = ''FooBarBaz''"
proof -
  let ?f = "filter (\<lambda>c. c \<noteq> CHR 0x0A \<and> c \<noteq> CHR 0x09 \<and> c \<noteq> CHR ''/'') t"
  have sub: "set (clean_title t) \<subseteq> set ?f"
    unfolding clean_title_filter by (rule set_strip)
  have 1: "CHR 0x0A \<notin> set (clean_title t)" using sub by auto
  have 2: "CHR 0x09 \<notin> set (clean_title t)" using sub by auto
  have 3: "CHR ''/'' \<notin> set (clean_title t)" using sub by auto
  have 4: "strip (clean_title t) = clean_title t"
    unfolding clean_title_filter by (rule strip_idem)
  have 5: "clean_title (''  Foo\<newline>Bar'' @ [CHR 0x09] @ ''/Baz  '') = ''FooBarBaz''"
    by (simp add: clean_title_filter strip_def isspace_def)
  show ?thesis using clean_title_filter 1 2 3 4 5 by blast
qed

text \<open>
  Claim C10.  Title cleaning is idempotent: cleaning a cleaned title returns it
  unchanged, for every string.
\<close>

theorem clean_title_idempotent: "clean_title (clean_title t) = clean_title t"
proof -
  let ?keep = "\<lambda>c. c \<noteq> CHR 0x0A \<and> c \<noteq> CHR 0x09 \<and> c \<noteq> CHR ''/''"
  have "set (clean_title t) \<subseteq> set (filter ?keep t)"
    unfolding clean_title_filter by (rule set_strip)
  then have "\<forall>c \<in> set (clean_title t). ?keep c" by auto
  then have "filter ?keep (clean_title t) = clean_title t"
    by (simp only: filter_id_conv)
  then have "clean_title (clean_title t) = strip (clean_title t)"
    by (subst clean_title_filter) simp
  also have "\<dots> = clean_title t"
    unfolding clean_title_filter by (rule strip_idem)
  finally show ?thesis .
qed

section \<open>Number extraction\<close>

lemma blocks_hd_tl:
  "hd (blocks P cs) = takeWhile P cs \<and>
   filter (\<lambda>b. b \<noteq> []) (tl (blocks P cs)) = filter (\<lambda>b. b \<noteq> []) (blocks P (dropWhile P cs))"
  by (induction cs) auto

text \<open>The scan of \<open>re.findall\<close> finds exactly the maximal runs of digits, in order.\<close>

lemma findall_digits_runs: "findall_digits s = maximal_digit_runs s"
proof (induction s rule: findall_digits.induct)
  case 1
  show ?case by (simp add: maximal_digit_runs_def)
next
  case (2 c cs)
  show ?case
  proof (cases "isdigit c")
    case True
    with 2 show ?thesis
      by (simp add: maximal_digit_runs_def blocks_hd_tl)
  next
    case False
    with 2 show ?thesis
      by (simp add: maximal_digit_runs_def)
  qed
qed

lemma concat_blocks: "concat (blocks P s) = filter P s"
proof (induction s)
  case Nil
  show ?case by simp
next
  case (Cons c cs)
  have ne: "blocks P cs \<noteq> []" by (cases cs) auto
  then have "hd (blocks P cs) @ concat (tl (blocks P cs)) = concat (blocks P cs)"
    by (cases "blocks P cs") auto
  with Cons show ?case by simp
qed

lemma concat_filter_nonempty: "concat (filter (\<lambda>b. b \<noteq> []) xss) = concat xss"
  by (induction xss) auto

lemma concat_runs: "concat (maximal_digit_runs s) = filter isdigit s"
  by (simp add: maximal_digit_runs_def concat_filter_nonempty concat_blocks)

lemma runs_empty_iff: "maximal_digit_runs s = [] \<longleftrightarrow> \<not> list_ex isdigit s"
proof
  assume "maximal_digit_runs s = []"
  then have "concat (maximal_digit_runs s) = []" by simp
  then have "filter isdigit s = []" by (simp add: concat_runs)
  then show "\<not> list_ex isdigit s" by (simp add: filter_empty_conv list_ex_iff)
next
  assume "\<not> list_ex isdigit s"
  then have "filter isdigit s = []" by (simp add: filter_empty_conv list_ex_iff)
  then have c: "concat (maximal_digit_runs s) = []" by (simp add: concat_runs)
  have "\<forall>b \<in> set (maximal_digit_runs s). b \<noteq> []" by (simp add: maximal_digit_runs_def)
  with c show "maximal_digit_runs s = []" by (cases "maximal_digit_runs s") auto
qed

lemma findall_digits_all: "s \<noteq> [] \<Longrightarrow> list_all isdigit s \<Longrightarrow> findall_digits s = [s]"
proof (cases s)
  case Nil
  assume "s \<noteq> []"
  with Nil show ?thesis by simp
next
  case (Cons c cs)
  assume "list_all isdigit s"
  with Cons have c: "isdigit c" and cs: "\<forall>x \<in> set cs. isdigit x"
    by (simp_all add: list_all_iff)
  from cs have tw: "takeWhile isdigit cs = cs" and dw: "dropWhile isdigit cs = []"
    by simp_all
  show ?thesis using c by (simp add: Cons tw dw)
qed

text \<open>
  Claim C7, as stated, fails on the code: \<open>int\<close> refuses a string of more than 4300
  digits, and \<open>extract_number\<close> does not catch the \<open>ValueError\<close>.  On a heading of
  4301 digits no integer is returned.
\<close>

theorem extract_number_counterexample:
  "list_ex isdigit (replicate 4301 (CHR ''1''))
   \<and> extract_number (replicate 4301 (CHR ''1'')) = Inl ValueError"
proof -
  have d: "isdigit (CHR ''1'')" by (simp add: isdigit_def)
  have ne: "replicate 4301 (CHR ''1'') \<noteq> []" by simp
  have ex: "list_ex isdigit (replicate 4301 (CHR ''1''))"
    using d by (simp add: list_ex_iff)
  have "list_all isdigit (replicate 4301 (CHR ''1''))"
    using d by (simp add: list_all_iff)
  with ne have "findall_digits (replicate 4301 (CHR ''1'')) = [replicate 4301 (CHR ''1'')]"
    by (rule findall_digits_all)
  then have "extract_number (replicate 4301 (CHR ''1'')) = Inl ValueError"
    by (simp add: extract_number_def py_int_def int_max_str_digits_def)
  with ex show ?thesis by simp
qed

text \<open>
  Claim C7, amended.  \<open>extract_number\<close> returns \<open>None\<close> exactly when the string holds
  no digit; when the string holds at most 4300 digits, it returns the integer read from
  the concatenation of all the maximal runs of digits, in order of occurrence.  That
  concatenation is the string of all the digits of the input, in order.
\<close>

theorem extract_number_digit_runs:
  "(extract_number s = Inr None) = (\<not> list_ex isdigit s)
   \<and> (length (filter isdigit s) \<le> 4300 \<longrightarrow>
        extract_number s =
          Inr (if list_ex isdigit s
               then Some (int_of_digits (concat (maximal_digit_runs s))) else None))
   \<and> concat (maximal_digit_runs s) = filter isdigit s"
proof (intro conjI impI)
  show "(extract_number s = Inr None) = (\<not> list_ex isdigit s)"
    by (simp add: extract_number_def Let_def findall_digits_runs runs_empty_iff
        split: sum.splits)
next
  assume "length (filter isdigit s) \<le> 4300"
  then show "extract_number s =
          Inr (if list_ex isdigit s
               then Some (int_of_digits (concat (maximal_digit_runs s))) else None)"
    by (simp add: extract_number_def Let_def findall_digits_runs join_empty runs_empty_iff
        concat_runs py_int_def int_max_str_digits_def)
next
  show "concat (maximal_digit_runs s) = filter isdigit s"
    by (rule concat_runs)
qed

theorem extract_number_digit_runs_witness:
  "length (filter isdigit ''Your search returned 1,234 results in 5 pages'') \<le> 4300
   \<and> list_ex isdigit ''Your search returned 1,234 results in 5 pages''
   \<and> extract_number ''Your search returned 1,234 results in 5 pages'' = Inr (Some 12345)"
proof -
  have f: "filter isdigit ''Your search returned 1,234 results in 5 pages'' = ''12345''"
    by (simp add: isdigit_def)
  have b: "length (filter isdigit ''Your search returned 1,234 results in 5 pages'') \<le> 4300"
    by (simp only: f) simp
  have x: "list_ex isdigit ''Your search returned 1,234 results in 5 pages''"
    by (simp add: isdigit_def)
  have v: "int_of_digits ''12345'' = 12345"
    by (simp add: int_of_digits_def digit_value_def)
  from extract_number_digit_runs [of "''Your search returned 1,234 results in 5 pages''"] b
  have "extract_number ''Your search returned 1,234 results in 5 pages'' =
          Inr (if list_ex isdigit ''Your search returned 1,234 results in 5 pages''
               then Some (int_of_digits (filter isdigit ''Your search returned 1,234 results in 5 pages''))
               else None)"
    by simp
  then have "extract_number ''Your search returned 1,234 results in 5 pages'' = Inr (Some 12345)"
    by (simp only: x f v if_True)
  with b x show ?thesis by simp
qed

section \<open>Page count\<close>

lemma bit_length_pos: "0 < n \<Longrightarrow> bit_length n = Suc (bit_length (n div 2))"
  by (subst bit_length.simps) simp

lemma bit_length_nonpos: "n \<le> 0 \<Longrightarrow> bit_length n = 0"
  by (subst bit_length.simps) simp

lemma bit_length_le: "n < 2 ^ k \<Longrightarrow> bit_length n \<le> k"
proof (induction k arbitrary: n)
  case 0
  then show ?case by (simp add: bit_length_nonpos)
next
  case (Suc k)
  show ?case
  proof (cases "0 < n")
    case True
    from Suc.prems have "n div 2 < 2 ^ k" by simp
    then have "bit_length (n div 2) \<le> k" by (rule Suc.IH)
    then show ?thesis using True by (simp add: bit_length_pos)
  next
    case False
    then show ?thesis by (simp add: bit_length_nonpos)
  qed
qed

lemma round_half_even_bounds:
  "a div b \<le> round_half_even a b \<and> round_half_even a b \<le> a div b + 1"
  by (simp add: round_half_even_def Let_def)

lemma round_half_even_exact: "a mod b = 0 \<Longrightarrow> 0 < b \<Longrightarrow> round_half_even a b = a div b"
  by (simp add: round_half_even_def Let_def)

lemma round_half_even_up: "b < 2 * (a mod b) \<Longrightarrow> round_half_even a b = a div b + 1"
  by (simp add: round_half_even_def Let_def)

lemma neg_div_ceiling:
  fixes m T c :: int
  assumes "0 < T" "(c - 1) * T < m" "m \<le> c * T"
  shows "- ((- m) div T) = c"
proof -
  have "(- m) div T = - c"
    by (rule int_div_pos_eq [where r = "c * T - m"]) (use assms in \<open>auto simp: algebra_simps\<close>)
  then show ?thesis by simp
qed

text \<open>
  With at least six binary places behind the point, rounding the quotient by 100 to the
  grid of the mantissa does not move it across an integer.
\<close>

lemma ceil_round:
  fixes n T :: int
  assumes n: "0 \<le> n" and T: "64 \<le> T"
  shows "- ((- round_half_even (n * T) 100) div T) = (n + 99) div 100"
proof -
  define k where "k = n div 100"
  define r where "r = n mod 100"
  define A where "A = k * T"
  define B where "B = r * T"
  define m where "m = round_half_even (n * T) 100"
  have n_eq: "n = 100 * k + r" by (simp add: k_def r_def)
  have r0: "0 \<le> r" and r100: "r < 100" by (simp_all add: r_def)
  have NT: "n * T = 100 * A + B" by (simp add: n_eq A_def B_def algebra_simps)
  have B0: "0 \<le> B" using r0 T by (simp add: B_def)
  have "r * T \<le> 99 * T" using r100 T by (intro mult_right_mono) auto
  then have B99: "B \<le> 99 * T" by (simp add: B_def)
  have q: "(n * T) div 100 = A + B div 100" by (simp add: NT)
  have md: "(n * T) mod 100 = B mod 100" by (simp add: NT)
  have lo: "A + B div 100 \<le> m" and hi: "m \<le> A + B div 100 + 1"
    using round_half_even_bounds [of "n * T" 100] by (simp_all add: m_def q)
  show ?thesis
  proof (cases "r = 0")
    case True
    then have "B = 0" by (simp add: B_def)
    then have "m = A" using round_half_even_exact [of "n * T" 100] by (simp add: m_def q md)
    then have "- ((- m) div T) = k"
      using T by (intro neg_div_ceiling) (auto simp: A_def algebra_simps)
    moreover have "(n + 99) div 100 = k" using n_eq True by simp
    ultimately show ?thesis by (simp add: m_def)
  next
    case False
    with r0 have r1: "1 \<le> r" by simp
    have "1 * T \<le> r * T" using r1 T by (intro mult_right_mono) auto
    then have TB: "T \<le> B" by (simp add: B_def)
    have Am: "A < m"
    proof (cases "100 \<le> B")
      case True
      then have "1 \<le> B div 100" by simp
      with lo show ?thesis by simp
    next
      case False
      with B0 have "B div 100 = 0" and "B mod 100 = B" by simp_all
      moreover have "100 < 2 * B" using TB T by simp
      ultimately have "m = A + 1"
        using round_half_even_up [of 100 "n * T"] by (simp add: m_def q md)
      then show ?thesis by simp
    qed
    have "B div 100 < T" using B99 T by simp
    with hi have mA: "m \<le> A + T" by simp
    have "- ((- m) div T) = k + 1"
      using T Am mA by (intro neg_div_ceiling) (auto simp: A_def algebra_simps)
    moreover have "(n + 99) div 100 = k + 1" using n_eq r1 r100 by simp
    ultimately show ?thesis by (simp add: m_def)
  qed
qed

lemma truediv_100_small:
  assumes "0 < n" "n < 100 * 2 ^ 47"
  shows "\<exists>s. 6 \<le> s \<and> truediv_100 n = Inr (round_half_even (n * 2 ^ s) 100, - int s)"
proof -
  define p where "p = int (bit_length ((n * 2 ^ 7) div 100)) - 1 - 7"
  have "(n * 2 ^ 7) div 100 < 2 ^ 54" using assms by simp
  then have "bit_length ((n * 2 ^ 7) div 100) \<le> 54" by (rule bit_length_le)
  then have p46: "p \<le> 46" by (simp add: p_def)
  define s where "s = nat (52 - p)"
  have s6: "6 \<le> s" using p46 by (simp add: s_def)
  have e: "p - 52 = - int s" using p46 by (simp add: s_def)
  have a: "\<bar>n\<bar> = n" using assms by simp
  have "truediv_100 n = Inr (round_half_even (n * 2 ^ s) 100, - int s)"
    unfolding truediv_100_def Let_def a p_def [symmetric] e
    using assms s6 by simp
  with s6 show ?thesis by blast
qed

lemma num_of_pages_exact:
  assumes "0 \<le> n" "n < 100 * 2 ^ 47"
  shows "num_of_pages (Some n) = Inr (Some ((n + 99) div 100))"
proof (cases "n = 0")
  case True
  then show ?thesis by (simp add: num_of_pages_def truediv_100_def math_ceil_def)
next
  case False
  with assms have "0 < n" by simp
  then obtain s where s: "6 \<le> s"
    and td: "truediv_100 n = Inr (round_half_even (n * 2 ^ s) 100, - int s)"
    using truediv_100_small assms(2) by blast
  have "(2::int) ^ 6 \<le> 2 ^ s" using s by (intro power_increasing) auto
  then have T: "(64::int) \<le> 2 ^ s" by simp
  have "math_ceil (round_half_even (n * 2 ^ s) 100, - int s)
        = - ((- round_half_even (n * 2 ^ s) 100) div 2 ^ s)"
    using s by (simp add: math_ceil_def)
  also have "\<dots> = (n + 99) div 100" using assms(1) T by (rule ceil_round)
  finally show ?thesis by (simp add: num_of_pages_def td)
qed

text \<open>
  The model on known doubles: \<open>1 / 100\<close> is \<open>0x1.47ae147ae147bp-7\<close>, \<open>3 / 100\<close> is
  \<open>0x1.eb851eb851eb8p-6\<close>, \<open>50 / 100\<close> is \<open>0.5\<close>.
\<close>

lemma truediv_100_examples:
  "truediv_100 1 = Inr (0x147AE147AE147B, - 59)"
  "truediv_100 3 = Inr (0x1EB851EB851EB8, - 58)"
  "truediv_100 50 = Inr (2 ^ 52, - 53)"
  "truediv_100 (- 101) = Inr (- 4548635623644201, - 52)"
  by (simp_all add: truediv_100_def round_half_even_def Let_def bit_length_pos bit_length_nonpos)

lemma ceiling_div_100: "\<lceil>real_of_int n / 100\<rceil> = (n + 99) div 100"
  by linarith

lemma num_of_results_supported:
  "num_of_results net url w = (Inr c, w1) \<Longrightarrow> \<exists>u. url = Some u \<and> requests w1 = requests w @ [u]"
  by (cases url) (auto simp: num_of_results_def httpx_get_def split: sum.splits)

text \<open>
  Claim C3, as stated, fails on the code: for an absent count \<open>num_of_pages\<close> returns
  \<open>None\<close>, not the page count 0; and the quotient is a float, so that beyond
  \<open>100 * 2 ^ 47\<close> the ceiling of the rounded quotient can miss the ceiling of the exact
  one, as it does for the count 14073748835532801.
\<close>

theorem num_of_pages_counterexample:
  "num_of_pages None \<noteq> Inr (Some 0)
   \<and> num_of_pages (Some 14073748835532801) = Inr (Some 140737488355328)
   \<and> \<lceil>real_of_int 14073748835532801 / 100\<rceil> = (140737488355329 :: int)"
proof (intro conjI)
  show "num_of_pages None \<noteq> Inr (Some 0)"
    by (simp add: num_of_pages_def)
  show "num_of_pages (Some 14073748835532801) = Inr (Some 140737488355328)"
    by (simp add: num_of_pages_def truediv_100_def math_ceil_def round_half_even_def Let_def
        bit_length_pos bit_length_nonpos)
  show "\<lceil>real_of_int 14073748835532801 / 100\<rceil> = (140737488355329 :: int)"
    by (simp add: ceiling_div_100)
qed

text \<open>
  Claim C3, amended.  An absent count gives an absent page count (\<open>None\<close>), and a unit
  whose count is absent ends without a page request.  For every count \<open>n\<close> with
  \<open>0 \<le> n < 100 * 2 ^ 47\<close> the page count is the ceiling of \<open>n / 100\<close>: 0 for 0, 1 for
  100, 2 for 101, 3 for 250.
\<close>

theorem num_of_pages_ceiling:
  "num_of_pages None = Inr None
   \<and> (num_of_results net (build_url lang 0 code) w = (Inr None, w1) \<longrightarrow>
        parse_code net lang path code w = (Inr (), w1)
        \<and> map Some (requests w1) = map Some (requests w) @ [build_url lang 0 code])
   \<and> (0 \<le> n \<and> n < 100 * 2 ^ 47 \<longrightarrow>
        num_of_pages (Some n) = Inr (Some \<lceil>real_of_int n / 100\<rceil>))
   \<and> num_of_pages (Some 0) = Inr (Some 0)
   \<and> num_of_pages (Some 100) = Inr (Some 1)
   \<and> num_of_pages (Some 101) = Inr (Some 2)
   \<and> num_of_pages (Some 250) = Inr (Some 3)"
proof (intro conjI impI)
  show "num_of_pages None = Inr None" by (simp add: num_of_pages_def)
next
  assume c: "num_of_results net (build_url lang 0 code) w = (Inr None, w1)"
  then show "parse_code net lang path code w = (Inr (), w1)"
    by (simp add: parse_code_def Let_def num_of_pages_def)
  from num_of_results_supported [OF c]
  show "map Some (requests w1) = map Some (requests w) @ [build_url lang 0 code]"
    by auto
next
  assume "0 \<le> n \<and> n < 100 * 2 ^ 47"
  then show "num_of_pages (Some n) = Inr (Some \<lceil>real_of_int n / 100\<rceil>)"
    by (simp only: num_of_pages_exact ceiling_div_100)
qed (simp_all add: num_of_pages_exact)

theorem num_of_pages_ceiling_witness:
  "num_of_results no_results_transport (build_url ''Hindi'' 0 600) empty_world =
     (Inr None, empty_world\<lparr>requests := [the (build_url ''Hindi'' 0 600)]\<rparr>)
   \<and> parse_code no_results_transport ''Hindi'' ''../Data'' 600 empty_world =
     (Inr (), empty_world\<lparr>requests := [the (build_url ''Hindi'' 0 600)]\<rparr>)
   \<and> (0::int) \<le> 250 \<and> (250::int) < 100 * 2 ^ 47
   \<and> num_of_pages (Some 250) = Inr (Some 3)
   \<and> \<lceil>real_of_int 250 / 100\<rceil> = (3::int)"
proof -
  have c: "num_of_results no_results_transport (build_url ''Hindi'' 0 600) empty_world =
     (Inr None, empty_world\<lparr>requests := [the (build_url ''Hindi'' 0 600)]\<rparr>)"
    by (simp add: num_of_results_def httpx_get_def build_url_def no_results_transport_def
        catalog_page_def empty_world_def soup_find_def matches_def deref_def text_of_def
        extract_number_def isdigit_def strip_def isspace_def Let_def)
  have b: "(0::int) \<le> 250 \<and> (250::int) < 100 * 2 ^ 47" by simp
  have e: "\<lceil>real_of_int 250 / 100\<rceil> = (3::int)" by (simp add: ceiling_div_100)
  from num_of_pages_ceiling [of no_results_transport "''Hindi''" 600 empty_world
      "empty_world\<lparr>requests := [the (build_url ''Hindi'' 0 600)]\<rparr>" "''../Data''" 250]
  have "parse_code no_results_transport ''Hindi'' ''../Data'' 600 empty_world =
     (Inr (), empty_world\<lparr>requests := [the (build_url ''Hindi'' 0 600)]\<rparr>)"
    and "num_of_pages (Some 250) = Inr (Some 3)"
    using c by simp_all
  with c b e show ?thesis by (intro conjI) simp_all
qed

section \<open>The record mapper\<close>

lemma deref_error: "deref x = Inl e \<Longrightarrow> e = AttributeError"
  by (simp add: deref_def split: option.splits)

lemma item_error: "item xs i = Inl e \<Longrightarrow> e = IndexError"
  by (simp add: item_def split: if_splits)

lemma extract_title_total: "\<exists>v. extract_title bk = Inr v"
  by (auto simp: extract_title_def try_except_def dest: deref_error split: sum.splits)

lemma extract_call_number_total: "\<exists>v. extract_call_number bk = Inr v"
  by (auto simp: extract_call_number_def try_except_def dest: deref_error split: sum.splits)

lemma extract_text_total: "\<exists>v. extract_text bk sel = Inr v"
  by (auto simp: extract_text_def try_except_def dest: deref_error split: sum.splits)

lemma extract_text_class_total: "\<exists>v. extract_text_class bk sel ty = Inr v"
  by (auto simp: extract_text_class_def try_except_def dest: deref_error split: sum.splits)

lemma extract_book_type_total: "\<exists>v. extract_book_type bk = Inr v"
  by (auto simp: extract_book_type_def try_except_def dest: deref_error split: sum.splits)

lemma extract_book_language_total: "\<exists>v. extract_book_language bk = Inr v"
  by (auto simp: extract_book_language_def try_except_def
      dest: deref_error item_error split: sum.splits)

lemma extract_book_form_total: "\<exists>v. extract_book_form bk = Inr v"
  by (auto simp: extract_book_form_def try_except_def
      dest: deref_error item_error split: sum.splits if_splits)

lemma extract_link_total: "\<exists>v. extract_link bk = Inr v"
  by (auto simp: extract_link_def try_except_def dest: deref_error split: sum.splits)

lemma extract_text_absent: "soup_find sel None bk = None \<Longrightarrow> extract_text bk sel = Inr None"
  by (simp add: extract_text_def try_except_def deref_def)

lemma parse_book_total: "\<exists>r. parse_book bk = Inr [r]"
proof -
  obtain v1 where 1: "extract_title bk = Inr v1" using extract_title_total by blast
  obtain v2 where 2: "extract_call_number bk = Inr v2" using extract_call_number_total by blast
  obtain v3 where 3: "extract_text bk ''p'' = Inr v3" using extract_text_total by blast
  obtain v4 where 4: "extract_book_type bk = Inr v4" using extract_book_type_total by blast
  obtain v5 where 5: "extract_book_form bk = Inr v5" using extract_book_form_total by blast
  obtain v6 where 6: "extract_book_language bk = Inr v6" using extract_book_language_total by blast
  obtain v7 where 7: "extract_text_class bk ''span'' ''publisher_date'' = Inr v7"
    using extract_text_class_total by blast
  obtain v8 where 8: "extract_link bk = Inr v8" using extract_link_total by blast
  show ?thesis by (simp add: parse_book_def 1 2 3 4 5 6 7 8)
qed

text \<open>
  Claim C6.  The record mapper never fails: for every row fragment each of the eight
  extractors returns a value or \<open>None\<close> without raising, and \<open>parse_book\<close> yields one
  complete record made of these eight results; a fragment with no \<open>p\<close> element gives a
  record whose author is \<open>None\<close>, the other fields being what their extractors return.
\<close>

theorem parse_book_never_fails:
  "\<exists>r. parse_book bk = Inr [r]
       \<and> extract_title bk = Inr (title r)
       \<and> extract_call_number bk = Inr (call_number r)
       \<and> extract_text bk ''p'' = Inr (author r)
       \<and> extract_book_type bk = Inr (booktype r)
       \<and> extract_book_form bk = Inr (form r)
       \<and> extract_book_language bk = Inr (language r)
       \<and> extract_text_class bk ''span'' ''publisher_date'' = Inr (year r)
       \<and> extract_link bk = Inr (link r)
       \<and> (soup_find ''p'' None bk = None \<longrightarrow> author r = None)"
proof -
  obtain v1 where 1: "extract_title bk = Inr v1" using extract_title_total by blast
  obtain v2 where 2: "extract_call_number bk = Inr v2" using extract_call_number_total by blast
  obtain v3 where 3: "extract_text bk ''p'' = Inr v3" using extract_text_total by blast
  obtain v4 where 4: "extract_book_type bk = Inr v4" using extract_book_type_total by blast
  obtain v5 where 5: "extract_book_form bk = Inr v5" using extract_book_form_total by blast
  obtain v6 where 6: "extract_book_language bk = Inr v6" using extract_book_language_total by blast
  obtain v7 where 7: "extract_text_class bk ''span'' ''publisher_date'' = Inr v7"
    using extract_text_class_total by blast
  obtain v8 where 8: "extract_link bk = Inr v8" using extract_link_total by blast
  let ?r = "\<lparr>title = v1, call_number = v2, author = v3, booktype = v4,
             form = v5, language = v6, year = v7, link = v8\<rparr>"
  have pb: "parse_book bk = Inr [?r]"
    by (simp add: parse_book_def 1 2 3 4 5 6 7 8)
  have "soup_find ''p'' None bk = None \<longrightarrow> v3 = None"
    using 3 by (auto simp: extract_text_absent)
  with pb 1 2 3 4 5 6 7 8 show ?thesis
    by (intro exI [of _ ?r]) simp
qed

theorem parse_book_never_fails_witness:
  "soup_find ''p'' None row_without_author = None
   \<and> parse_book row_without_author =
       Inr [\<lparr>title = Some ''Krishi vigyan'', call_number = Some ''H 630 S 531'',
             author = None, booktype = Some ''Text'', form = Some ''Not fiction'',
             language = Some ''Hindi'', year = Some ''1987'',
             link = Some ''/cgi-bin/koha/opac-detail.pl?biblionumber=42''\<rparr>]"
proof -
  have h: "soup_find ''p'' None row_without_author = None"
    by code_simp
  have ev: "parse_book row_without_author =
       Inr [\<lparr>title = Some ''Krishi vigyan'', call_number = Some ''H 630 S 531'',
             author = None, booktype = Some ''Text'', form = Some ''Not fiction'',
             language = Some ''Hindi'', year = Some ''1987'',
             link = Some ''/cgi-bin/koha/opac-detail.pl?biblionumber=42''\<rparr>]"
    by code_simp
  show ?thesis
    using parse_book_never_fails [of row_without_author] h ev by simp
qed

section \<open>Persistence\<close>

lemma insert_no_keys: "unique_keys t = [] \<Longrightarrow> insert_or_ignore t b = t\<lparr>rows := rows t @ [b]\<rparr>"
  by (simp add: insert_or_ignore_def violates_def)

text \<open>
  Claim C1 does not hold of the code: the table is created without a uniqueness
  constraint, so \<open>INSERT OR IGNORE\<close> has no conflict to ignore.  Storing a record twice
  in a fresh store leaves two rows, for every record and every path; for the sample
  record, two rows of its (title, author, year) identity.
\<close>

theorem save_to_database_twice_two_rows:
  "map_option rows (save_to_database (save_to_database Map.empty p [b]) p [b] p) = Some [b, b]
   \<and> length (filter (same_identity sample_book)
        (rows (the (save_to_database
           (save_to_database Map.empty ''parsed_data_Hindi.db'' [sample_book])
           ''parsed_data_Hindi.db'' [sample_book] ''parsed_data_Hindi.db'')))) = 2"
  by (simp add: save_to_database_def create_table_books_def insert_no_keys same_identity_def)

text \<open>Had the table declared the key, the second insert would have been dropped.\<close>

lemma insert_or_ignore_with_key:
  "insert_or_ignore \<lparr>unique_keys = [[Title, Author, Year]], rows = [sample_book]\<rparr> sample_book
     = \<lparr>unique_keys = [[Title, Author, Year]], rows = [sample_book]\<rparr>"
  by (simp add: insert_or_ignore_def violates_def sample_book_def)

section \<open>Progress tracking\<close>

lemma read_values_int64: "list_all in_int64 cells \<Longrightarrow> read_values cells = map IntCode cells"
  by (simp add: read_values_def)

lemma code_number_IntCode: "map (code_number \<circ> IntCode) cells = cells"
  by (induction cells) simp_all

lemma inferred_dtype_int64:
  "list_all in_int64 cells \<Longrightarrow>
     inferred_dtype (map IntCode cells) = (if cells = [] then Object else Int64)"
  by (simp add: inferred_dtype_def list_all_iff)

text \<open>
  Claim C4, as stated, fails on the code: a ledger that holds a negative code and a
  code above the range of \<open>int64\<close> is read as a column of strings, and no integer of
  the universe equals a string.  With the universe 600, 601 and the ledger -1,
  9223372036854775808, 600 the code 600 is returned although the ledger holds it.
\<close>

theorem progress_update_codes_counterexample:
  "csv_files mixed_ledger_world (''../Data'' @ ''/0_subject_list/tech_ddc_codes_list.csv'')
     = Some (Int_literals [600, 601])
   \<and> csv_files mixed_ledger_world (ledger_path ''../Data'' ''Hindi'')
     = Some (Int_literals [- 1, 9223372036854775808, 600])
   \<and> progress_update_codes ''../Data'' ''Hindi'' mixed_ledger_world
     = Some (Inr [IntCode 600, IntCode 601])"
  by (simp add: progress_update_codes_def read_csv_def read_values_def in_int64_def
      in_uint64_def mixed_ledger_world_def ledger_path_def)

text \<open>
  Claim C4, amended.  With the universe file present and every code of the universe and
  of the ledger within the range of \<open>int64\<close>, \<open>progress_update_codes\<close> returns the codes
  of the universe that are not in the ledger of the language, in the order of the
  universe, an absent ledger counting as empty; with the ledger 600, 601 and the
  universe 600, 601, 602, 603 it returns 602, 603.
\<close>

theorem progress_update_codes_remaining:
  assumes "csv_files w (path @ ''/0_subject_list/tech_ddc_codes_list.csv'')
             = Some (Int_literals universe)"
    and "case csv_files w (ledger_path path lang) of
           None \<Rightarrow> ledger = [] | Some c \<Rightarrow> c = Int_literals ledger"
    and "list_all in_int64 universe"
    and "list_all in_int64 ledger"
  shows "\<exists>remaining.
           progress_update_codes path lang w = Some (Inr (map IntCode remaining))
         \<and> remaining = filter (\<lambda>code. code \<notin> set ledger) universe
         \<and> set remaining = set universe - set ledger"
proof -
  have f: "filter (\<lambda>code. code \<notin> IntCode ` set ledger) (map IntCode universe)
           = map IntCode (filter (\<lambda>code. code \<notin> set ledger) universe)"
    by (induction universe) auto
  have "progress_update_codes path lang w
        = Some (Inr (map IntCode (filter (\<lambda>code. code \<notin> set ledger) universe)))"
  proof (cases "csv_files w (ledger_path path lang)")
    case None
    with assms(2) have "ledger = []" by simp
    with None assms(1,3) show ?thesis
      by (simp add: progress_update_codes_def read_csv_def read_values_int64)
  next
    case (Some c)
    with assms(2) have "c = Int_literals ledger" by simp
    with Some assms(1,3,4) show ?thesis
      by (simp add: progress_update_codes_def read_csv_def read_values_int64 f)
  qed
  then show ?thesis by auto
qed

theorem progress_update_codes_remaining_witness:
  "csv_files resume_world (''../Data'' @ ''/0_subject_list/tech_ddc_codes_list.csv'')
     = Some (Int_literals [600, 601, 602, 603])
   \<and> csv_files resume_world (ledger_path ''../Data'' ''Hindi'') = Some (Int_literals [600, 601])
   \<and> csv_files resume_world (ledger_path ''../Data'' ''Tamil'') = None
   \<and> list_all in_int64 [600, 601, 602, 603]
   \<and> progress_update_codes ''../Data'' ''Hindi'' resume_world
       = Some (Inr [IntCode 602, IntCode 603])
   \<and> progress_update_codes ''../Data'' ''Tamil'' resume_world
       = Some (Inr [IntCode 600, IntCode 601, IntCode 602, IntCode 603])"
proof -
  have u: "csv_files resume_world (''../Data'' @ ''/0_subject_list/tech_ddc_codes_list.csv'')
     = Some (Int_literals [600, 601, 602, 603])"
    by (simp add: resume_world_def ledger_path_def)
  have l: "csv_files resume_world (ledger_path ''../Data'' ''Hindi'') = Some (Int_literals [600, 601])"
    by (simp add: resume_world_def ledger_path_def)
  have t: "csv_files resume_world (ledger_path ''../Data'' ''Tamil'') = None"
    by (simp add: resume_world_def ledger_path_def)
  have lh: "case csv_files resume_world (ledger_path ''../Data'' ''Hindi'') of
              None \<Rightarrow> [600, 601] = [] | Some c \<Rightarrow> c = Int_literals [600, 601]"
    by (simp add: l)
  have lt: "case csv_files resume_world (ledger_path ''../Data'' ''Tamil'') of
              None \<Rightarrow> [] = [] | Some c \<Rightarrow> c = Int_literals []"
    by (simp add: t)
  have bu: "list_all in_int64 [600, 601, 602, 603]" by (simp add: in_int64_def)
  have bl: "list_all in_int64 [600, 601]" by (simp add: in_int64_def)
  have be: "list_all in_int64 []" by simp
  show ?thesis
    using progress_update_codes_remaining [OF u lh bu bl]
      progress_update_codes_remaining [OF u lt bu be] u l t bu
    by simp
qed

text \<open>
  Claim C9, as stated, fails on the code: a ledger whose one code 9223372036854775809
  is above the range of \<open>int64\<close> is read as a \<open>uint64\<close> column, the frame of the code 5
  is \<open>int64\<close>, and their concatenation is a \<open>float64\<close> column: the file is rewritten
  as floats, and the entry recorded before is not preserved.
\<close>

theorem save_code_scraped_counterexample:
  "csv_files uint64_ledger_world (ledger_path ''../Data'' ''Hindi'')
     = Some (Int_literals [9223372036854775809])
   \<and> save_code_scraped ''Hindi'' ''../Data'' (IntCode 5) uint64_ledger_world
     = (Inr (), uint64_ledger_world\<lparr>csv_files :=
          (csv_files uint64_ledger_world)(ledger_path ''../Data'' ''Hindi'' \<mapsto> Float_cells)\<rparr>)
   \<and> Float_cells \<noteq> Int_literals [9223372036854775809, 5]"
  by (simp add: save_code_scraped_def read_csv_def read_values_def data_frame_def
      inferred_dtype_def to_csv_def in_int64_def in_uint64_def uint64_ledger_world_def Let_def)

text \<open>
  Claim C9, amended.  With every code of the ledger and the new code within the range
  of \<open>int64\<close>, \<open>save_code_scraped\<close> does not fail and appends exactly one entry: the
  ledger of the language afterwards is the ledger before (empty if the file was absent)
  followed by the code; no other file, no database and no request changes.
\<close>

theorem save_code_scraped_appends:
  assumes "case csv_files w (ledger_path path lang) of
             None \<Rightarrow> ledger = [] | Some c \<Rightarrow> c = Int_literals ledger"
    and "list_all in_int64 ledger"
    and "in_int64 c"
  shows "save_code_scraped lang path (IntCode c) w =
           (Inr (), w\<lparr>csv_files :=
              (csv_files w)(ledger_path path lang \<mapsto> Int_literals (ledger @ [c]))\<rparr>)
         \<and> csv_files (snd (save_code_scraped lang path (IntCode c) w)) (ledger_path path lang) =
              Some (Int_literals (ledger @ [c]))
         \<and> (\<forall>p. p \<noteq> ledger_path path lang \<longrightarrow>
                csv_files (snd (save_code_scraped lang path (IntCode c) w)) p = csv_files w p)
         \<and> dbs (snd (save_code_scraped lang path (IntCode c) w)) = dbs w
         \<and> requests (snd (save_code_scraped lang path (IntCode c) w)) = requests w"
proof -
  have one: "inferred_dtype [IntCode c] = Int64"
    using assms(3) by (simp add: inferred_dtype_def)
  have "save_code_scraped lang path (IntCode c) w =
           (Inr (), w\<lparr>csv_files :=
              (csv_files w)(ledger_path path lang \<mapsto> Int_literals (ledger @ [c]))\<rparr>)"
  proof (cases "csv_files w (ledger_path path lang)")
    case None
    with assms(1) have "ledger = []" by simp
    with None show ?thesis
      by (simp add: save_code_scraped_def read_csv_def data_frame_def to_csv_def Let_def)
  next
    case (Some c')
    with assms(1) have "c' = Int_literals ledger" by simp
    with Some assms(2) show ?thesis
      by (simp add: save_code_scraped_def read_csv_def data_frame_def to_csv_def Let_def
          read_values_int64 inferred_dtype_int64 one code_number_IntCode)
  qed
  then show ?thesis by simp
qed

theorem save_code_scraped_appends_witness:
  "csv_files resume_world (ledger_path ''../Data'' ''Hindi'') = Some (Int_literals [600, 601])
   \<and> list_all in_int64 [600, 601] \<and> in_int64 602
   \<and> csv_files (snd (save_code_scraped ''Hindi'' ''../Data'' (IntCode 602) resume_world))
        (ledger_path ''../Data'' ''Hindi'') = Some (Int_literals [600, 601, 602])
   \<and> csv_files resume_world (ledger_path ''../Data'' ''Tamil'') = None
   \<and> csv_files (snd (save_code_scraped ''Tamil'' ''../Data'' (IntCode 600) resume_world))
        (ledger_path ''../Data'' ''Tamil'') = Some (Int_literals [600])"
proof -
  have l: "csv_files resume_world (ledger_path ''../Data'' ''Hindi'') = Some (Int_literals [600, 601])"
    by (simp add: resume_world_def ledger_path_def)
  have t: "csv_files resume_world (ledger_path ''../Data'' ''Tamil'') = None"
    by (simp add: resume_world_def ledger_path_def)
  have lh: "case csv_files resume_world (ledger_path ''../Data'' ''Hindi'') of
              None \<Rightarrow> [600, 601] = [] | Some c \<Rightarrow> c = Int_literals [600, 601]"
    by (simp add: l)
  have lt: "case csv_files resume_world (ledger_path ''../Data'' ''Tamil'') of
              None \<Rightarrow> [] = [] | Some c \<Rightarrow> c = Int_literals []"
    by (simp add: t)
  have bl: "list_all in_int64 [600, 601]" by (simp add: in_int64_def)
  have be: "list_all in_int64 []" by simp
  have b2: "in_int64 602" by (simp add: in_int64_def)
  have b0: "in_int64 600" by (simp add: in_int64_def)
  show ?thesis
    using save_code_scraped_appends [OF lh bl b2] save_code_scraped_appends [OF lt be b0]
      l t bl b2
    by simp
qed

section \<open>Unsupported languages\<close>

lemma build_url_supported:
  "(build_url lang num code = None) =
     (lang \<notin> set [''Hindi'', ''Bengali'', ''Tamil'', ''Marathi'', ''Urdu'', ''Kannada'', ''English''])"
  by (simp add: build_url_def)

lemma parse_code_unsupported:
  "build_url lang 0 code = None \<Longrightarrow> parse_code net lang path code w = (Inl TypeError, w)"
  by (simp add: parse_code_def Let_def num_of_results_def httpx_get_def)

text \<open>
  Claim C2 does not hold of the code.  For the name Klingon, \<open>build_url\<close> returns
  \<open>None\<close> and no request is sent, but \<open>parse_code\<close> passes the \<open>None\<close> on to
  \<open>httpx.get\<close>: the \<open>TypeError\<close> leaves \<open>parse_code\<close>, \<open>parse_language\<close> and
  \<open>scrape_language\<close>, the codes that follow are not visited and the ledger is not
  written.  The unit is not skipped; the run ends.
\<close>

theorem unsupported_facet_aborts:
  "build_url ''Klingon'' num code = None
   \<and> parse_code net ''Klingon'' path code w = (Inl TypeError, w)
   \<and> parse_language net ''Klingon'' path (c # codes) w = (Inl TypeError, w)
   \<and> scrape_language net ''Klingon'' ''../Data'' resume_world
       = Some (Inl TypeError, resume_world)"
proof -
  have b: "build_url ''Klingon'' n c = None" for n c
    by (simp add: build_url_supported)
  have r: "progress_update_codes ''../Data'' ''Klingon'' resume_world
           = Some (Inr [IntCode 600, IntCode 601, IntCode 602, IntCode 603])"
    by (simp add: progress_update_codes_def read_csv_def read_values_def in_int64_def
        resume_world_def ledger_path_def)
  show ?thesis
    by (simp add: scrape_language_def r parse_code_unsupported b)
qed

section \<open>Pagination\<close>

lemma save_books_ok:
  "\<exists>w'. save_books path books w = (Inr (), w') \<and> requests w' = requests w"
proof (induction books arbitrary: w)
  case Nil
  show ?case by simp
next
  case (Cons bk books)
  obtain r where r: "parse_book bk = Inr [r]" using parse_book_total by blast
  show ?case using Cons [of "w\<lparr>dbs := save_to_database (dbs w) path [r]\<rparr>"] by (simp add: r)
qed

text \<open>
  A page request is sent for every URL; only a failure of the transport leaves
  \<open>parse_page\<close>.
\<close>

lemma parse_page_outcome:
  "\<exists>w'. parse_page net (Some u) path w =
           ((case net (length (requests w)) u of Inl e \<Rightarrow> Inl e | Inr doc \<Rightarrow> Inr ()), w')
        \<and> requests w' = requests w @ [u]"
proof (cases "net (length (requests w)) u")
  case (Inl e)
  then show ?thesis by (simp add: parse_page_def httpx_get_def)
next
  case (Inr soup)
  let ?w1 = "w\<lparr>requests := requests w @ [u]\<rparr>"
  show ?thesis
  proof (cases "soup_find ''div'' (Some ''searchresults'') soup")
    case None
    then show ?thesis using Inr by (simp add: parse_page_def httpx_get_def deref_def)
  next
    case (Some tbl)
    obtain w2 where w2: "save_books path (find_all ''tr'' tbl) ?w1 = (Inr (), w2)"
      and rq: "requests w2 = requests ?w1"
      using save_books_ok by blast
    show ?thesis using Inr Some w2 rq
      by (simp add: parse_page_def httpx_get_def deref_def Let_def)
  qed
qed

lemma scrape_pages_ok:
  assumes "\<forall>i \<in> set idx. build_url lang (i * 100) code \<noteq> None"
    and "\<forall>j < length idx. \<exists>doc.
           net (length (requests w) + j) (the (build_url lang ((idx ! j) * 100) code)) = Inr doc"
  shows "\<exists>w'. scrape_pages net lang database_path code idx w = (Inr (), w')
            \<and> map Some (requests w') =
                map Some (requests w) @ map (\<lambda>i. build_url lang (i * 100) code) idx"
  using assms
proof (induction idx arbitrary: w)
  case Nil
  show ?case by simp
next
  case (Cons i idx)
  from Cons.prems(1) obtain u where u: "build_url lang (i * 100) code = Some u" by auto
  from Cons.prems(2) [rule_format, of 0] u obtain doc
    where doc: "net (length (requests w)) u = Inr doc" by auto
  obtain w1 where w1: "parse_page net (Some u) database_path w = (Inr (), w1)"
    and rq1: "requests w1 = requests w @ [u]"
    using parse_page_outcome [of net u database_path w] doc by auto
  have p1: "\<forall>i \<in> set idx. build_url lang (i * 100) code \<noteq> None" using Cons.prems(1) by simp
  have p2: "\<forall>j < length idx. \<exists>doc.
           net (length (requests w1) + j) (the (build_url lang ((idx ! j) * 100) code)) = Inr doc"
  proof (intro allI impI)
    fix j assume "j < length idx"
    then have "Suc j < length (i # idx)" by simp
    from Cons.prems(2) [rule_format, OF this] show "\<exists>doc.
           net (length (requests w1) + j) (the (build_url lang ((idx ! j) * 100) code)) = Inr doc"
      by (simp add: rq1)
  qed
  from Cons.IH [OF p1 p2] obtain w' where
    "scrape_pages net lang database_path code idx w1 = (Inr (), w')"
    "map Some (requests w') =
                map Some (requests w1) @ map (\<lambda>i. build_url lang (i * 100) code) idx"
    by blast
  then show ?case by (simp add: u w1 rq1)
qed

lemma build_url_language_only:
  "build_url lang num code \<noteq> None \<Longrightarrow> build_url lang num' code' \<noteq> None"
  by (simp add: build_url_def split: if_splits)

lemma range0_nth: "j < length (range0 P) \<Longrightarrow> range0 P ! j = int j"
  by (simp add: range0_def)

lemma length_range0: "length (range0 P) = nat P"
  by (simp add: range0_def)

text \<open>
  Claim C8.  When the count of a unit is present and gives \<open>P\<close> pages, and the transport
  answers the page requests, \<open>parse_code\<close> returns after exactly \<open>P\<close> page requests
  following the count request: the URLs of \<open>build_url\<close> for the page indices
  \<open>0, ..., P - 1\<close> in this order, the one for index \<open>i\<close> with \<open>offset=\<close> \<open>i * 100\<close> and
  \<open>count=100\<close>.
\<close>

theorem parse_code_fetches_pages:
  assumes count: "num_of_results net (build_url lang 0 code) w = (Inr (Some n), w1)"
    and pages: "num_of_pages (Some n) = Inr (Some P)"
    and ok: "\<forall>j < nat P. \<forall>u. build_url lang (int j * 100) code = Some u \<longrightarrow>
               (\<exists>doc. net (length (requests w1) + j) u = Inr doc)"
  shows "\<exists>w'. parse_code net lang path code w = (Inr (), w')
           \<and> map Some (requests w1) = map Some (requests w) @ [build_url lang 0 code]
           \<and> map Some (requests w') =
               map Some (requests w1) @ map (\<lambda>i. build_url lang (i * 100) code) [0..P - 1]
           \<and> length (requests w') = length (requests w1) + nat P
           \<and> (\<forall>i \<in> set [0..P - 1]. \<exists>lan.
                 build_url lang (i * 100) code =
                   Some (''https://nationallibraryopac.nvli.in/cgi-bin/koha/opac-search.pl?idx=callnum&q=''
                         @ str_of_int code
                         @ ''&limit=mc-itype%2Cphr%3ABKS&limit=ln%2Crtrn%3A'' @ lan
                         @ ''&limit=fic%3A0&offset='' @ str_of_int (i * 100)
                         @ ''&sort_by=call_number_dsc&count=100''))"
proof -
  from num_of_results_supported [OF count] obtain u0
    where u0: "build_url lang 0 code = Some u0" and rq1: "requests w1 = requests w @ [u0]"
    by blast
  have sup: "build_url lang num' code' \<noteq> None" for num' code'
    using u0 build_url_language_only [of lang 0 code num' code'] by simp
  have a1: "\<forall>i \<in> set (range0 P). build_url lang (i * 100) code \<noteq> None"
    using sup by simp
  have a2: "\<forall>j < length (range0 P). \<exists>doc.
      net (length (requests w1) + j) (the (build_url lang ((range0 P ! j) * 100) code)) = Inr doc"
  proof (intro allI impI)
    fix j assume j: "j < length (range0 P)"
    then have jP: "j < nat P" by (simp add: length_range0)
    obtain u where u: "build_url lang (int j * 100) code = Some u" using sup by blast
    from ok jP u have "\<exists>doc. net (length (requests w1) + j) u = Inr doc" by blast
    then show "\<exists>doc.
      net (length (requests w1) + j) (the (build_url lang ((range0 P ! j) * 100) code)) = Inr doc"
      using u j by (simp add: range0_nth)
  qed
  from scrape_pages_ok [OF a1 a2] obtain w' where
    sp: "scrape_pages net lang (path @ ''/1_scraped_data/parsed_data_'' @ lang @ ''.db'')
           code (range0 P) w1 = (Inr (), w')"
    and rq: "map Some (requests w') =
                map Some (requests w1) @ map (\<lambda>i. build_url lang (i * 100) code) (range0 P)"
    by blast
  have pc: "parse_code net lang path code w = (Inr (), w')"
    using sp by (simp add: parse_code_def Let_def count pages)
  have len: "length (requests w') = length (requests w1) + nat P"
  proof -
    have "length (map Some (requests w')) = length (requests w1) + length (range0 P)"
      by (simp only: rq length_append length_map)
    then show ?thesis by (simp add: length_range0)
  qed
  have shape: "\<forall>i \<in> set [0..P - 1]. \<exists>lan.
                 build_url lang (i * 100) code =
                   Some (''https://nationallibraryopac.nvli.in/cgi-bin/koha/opac-search.pl?idx=callnum&q=''
                         @ str_of_int code
                         @ ''&limit=mc-itype%2Cphr%3ABKS&limit=ln%2Crtrn%3A'' @ lan
                         @ ''&limit=fic%3A0&offset='' @ str_of_int (i * 100)
                         @ ''&sort_by=call_number_dsc&count=100'')"
  proof
    fix i assume "i \<in> set [0..P - 1]"
    from sup [of "i * 100" code] show "\<exists>lan.
                 build_url lang (i * 100) code =
                   Some (''https://nationallibraryopac.nvli.in/cgi-bin/koha/opac-search.pl?idx=callnum&q=''
                         @ str_of_int code
                         @ ''&limit=mc-itype%2Cphr%3ABKS&limit=ln%2Crtrn%3A'' @ lan
                         @ ''&limit=fic%3A0&offset='' @ str_of_int (i * 100)
                         @ ''&sort_by=call_number_dsc&count=100'')"
      by (simp add: build_url_def split: if_splits option.splits)
  qed
  show ?thesis
    using pc rq len shape u0 rq1 by (simp add: range0_def)
qed

theorem parse_code_fetches_pages_witness:
  "num_of_results sample_transport (build_url ''Hindi'' 0 601) empty_world =
     (Inr (Some 150), empty_world\<lparr>requests := [the (build_url ''Hindi'' 0 601)]\<rparr>)
   \<and> num_of_pages (Some 150) = Inr (Some 2)
   \<and> (\<exists>w'. parse_code sample_transport ''Hindi'' ''../Data'' 601 empty_world = (Inr (), w')
          \<and> map Some (requests w') =
              [build_url ''Hindi'' 0 601, build_url ''Hindi'' 0 601, build_url ''Hindi'' 100 601]
          \<and> length (requests w') = 3)"
proof -
  have count: "num_of_results sample_transport (build_url ''Hindi'' 0 601) empty_world =
     (Inr (Some 150), empty_world\<lparr>requests := [the (build_url ''Hindi'' 0 601)]\<rparr>)"
    by (simp add: num_of_results_def httpx_get_def build_url_def sample_transport_def
        catalog_page_def empty_world_def soup_find_def matches_def deref_def text_of_def
        extract_number_def join_empty isdigit_def int_of_digits_def digit_value_def
        py_int_def int_max_str_digits_def strip_def isspace_def Let_def)
  have pages: "num_of_pages (Some 150) = Inr (Some 2)"
    by (simp add: num_of_pages_def truediv_100_def math_ceil_def round_half_even_def Let_def
        bit_length_pos bit_length_nonpos)
  have ok: "\<forall>j < nat 2. \<forall>u. build_url ''Hindi'' (int j * 100) 601 = Some u \<longrightarrow>
      (\<exists>doc. sample_transport
         (length (requests (empty_world\<lparr>requests := [the (build_url ''Hindi'' 0 601)]\<rparr>)) + j) u = Inr doc)"
    by (simp add: sample_transport_def)
  have b0: "Some (the (build_url ''Hindi'' 0 601)) = build_url ''Hindi'' 0 601"
    by (simp add: build_url_def)
  have idx: "[0..2 - 1] = [0, 1::int]"
    by (simp add: upto_rec1)
  from parse_code_fetches_pages [OF count pages ok, of "''../Data''"]
  obtain w' where pc: "parse_code sample_transport ''Hindi'' ''../Data'' 601 empty_world = (Inr (), w')"
    and rq: "map Some (requests w') =
               map Some (requests (empty_world\<lparr>requests := [the (build_url ''Hindi'' 0 601)]\<rparr>))
               @ map (\<lambda>i. build_url ''Hindi'' (i * 100) 601) [0..2 - 1]"
    and len: "length (requests w') =
               length (requests (empty_world\<lparr>requests := [the (build_url ''Hindi'' 0 601)]\<rparr>)) + nat 2"
    by (elim exE conjE)
  have rq': "map Some (requests w') =
              [build_url ''Hindi'' 0 601, build_url ''Hindi'' 0 601, build_url ''Hindi'' 100 601]"
    unfolding rq idx using b0 by simp
  have len': "length (requests w') = 3"
    using len by simp
  show ?thesis
  proof (intro conjI)
    show "\<exists>w'. parse_code sample_transport ''Hindi'' ''../Data'' 601 empty_world = (Inr (), w')
          \<and> map Some (requests w') =
              [build_url ''Hindi'' 0 601, build_url ''Hindi'' 0 601, build_url ''Hindi'' 100 601]
          \<and> length (requests w') = 3"
      using pc rq' len' by (intro exI [of _ w'] conjI)
  qed (rule count, rule pages)
qed

end
